theory Spec2Isabelle
  imports Complex_Main
begin

section \<open>The pose-comparison demo (camera.js)\<close>

text \<open>
  The module keeps its state in module-level variables (\<open>userResult\<close>, \<open>imgResult\<close>,
  \<open>predictedPoses\<close>) and in one DOM element (\<open>#score-placeholder\<close>). Two asynchronous
  flows run over that state: the frame loop \<open>poseDetectionFrame\<close> and the one-shot
  reference load \<open>testImageAndEstimatePoses\<close>. The model below makes the state a record,
  every synchronous stretch of code between two \<open>await\<close>s a function on that record, and
  the completion of an awaited call an event.

  JavaScript numbers are IEEE doubles. A finite double is a real number, and the numbers
  of the state are of type \<open>real\<close>; NaN and the infinities have no counterpart. The
  functions of the event model compute over the reals, which is what the code does
  wherever no operation rounds its result; \<open>recalculate_double\<close> is \<open>recalculate\<close> with
  the rounding of every operation.
\<close>

subsection \<open>Data\<close>

record position =
  x :: real
  y :: real

record keypoint =
  kp_score :: real
  part :: string
  position :: position

record pose =
  pose_score :: real
  keypoints :: "keypoint list"

datatype error = TypeError | DegenerateGeometry | Rejected

text \<open>
  \<open>calculateAngle\<close> is imported from \<open>./utils\<close>; the callers below take it as a
  parameter. An argument is \<open>None\<close> when the caller passes \<open>undefined\<close>; the result is
  \<open>Inl e\<close> when the call throws.
\<close>

type_synonym calculateAngle =
  "keypoint option \<Rightarrow> keypoint option \<Rightarrow> keypoint option \<Rightarrow> error + real"

datatype algorithm = SinglePose | MultiPose

record poseDetection =
  minPoseConfidence :: real
  minPartConfidence :: real

record gui =
  algorithm :: algorithm
  singlePoseDetection :: poseDetection
  multiPoseDetection :: poseDetection

definition guiState :: gui where
  "guiState =
     \<lparr>algorithm = SinglePose,
      singlePoseDetection = \<lparr>minPoseConfidence = 7 / 10, minPartConfidence = 7 / 10\<rparr>,
      multiPoseDetection = \<lparr>minPoseConfidence = 15 / 100, minPartConfidence = 1 / 10\<rparr>\<rparr>"

definition distance :: real where
  "distance = 20"

record result =
  leftElbow :: real

text \<open>Where the reference load \<open>testImageAndEstimatePoses\<close> stands.\<close>

datatype ref_pc = NotStarted | AwaitLoadImage | AwaitEstimate | Returned | Threw error

text \<open>The tensor \<open>input\<close> made by \<open>tf.browser.fromPixels\<close>.\<close>

datatype tensor = NotCreated | Live | Disposed

record state =
  userResult :: result
  imgResult :: result
  score_innerHTML :: string
  predictedPoses :: "pose option"
  frame_pending :: nat
  raf_pending :: nat
  frame_error :: "error option"
  ref_pc :: ref_pc
  input :: tensor

text \<open>
  \<open>frame_pending\<close> counts the \<open>estimatePoses\<close> calls of the frame loop that were issued
  and have not settled, \<open>raf_pending\<close> the callbacks registered with
  \<open>requestAnimationFrame\<close> that have not run, and \<open>frame_error\<close> holds the error with
  which a tick's promise was rejected.
\<close>

subsection \<open>Numbers and strings of the host language\<close>

text \<open>\<open>Math.round\<close>: the nearest integer, a tie going up.\<close>

definition Math_round :: "real \<Rightarrow> int" where
  "Math_round v = \<lfloor>v + 1 / 2\<rfloor>"

definition digit :: "nat \<Rightarrow> char" where
  "digit d = ''0123456789'' ! d"

function digits :: "nat \<Rightarrow> string" where
  "digits n = (if n < 10 then [digit n] else digits (n div 10) @ [digit (n mod 10)])"
  by pat_completeness auto
termination
  by (relation "measure id") auto

declare digits.simps [simp del]

text \<open>The string of an integer-valued number, as \<open>+\<close> on a string and a number makes it.\<close>

definition Number_toString :: "int \<Rightarrow> string" where
  "Number_toString i = (if i < 0 then CHR ''-'' # digits (nat (- i)) else digits (nat i))"

text \<open>\<open>xs[i]\<close>: \<open>undefined\<close> out of range.\<close>

fun js_index :: "'a list \<Rightarrow> nat \<Rightarrow> 'a option" where
  "js_index [] i = None"
| "js_index (a # as) 0 = Some a"
| "js_index (a # as) (Suc i) = js_index as i"

subsection \<open>Scoring\<close>

text \<open>
  \<open>recalculate\<close> (lines 265-271). A number is truthy when it is not zero. The element
  \<open>#score-placeholder\<close> is taken to exist.
\<close>

definition recalculate :: "state \<Rightarrow> state" where
  "recalculate s =
     (if leftElbow (userResult s) \<noteq> 0
         \<and> \<bar>leftElbow (imgResult s) - leftElbow (userResult s)\<bar> \<le> distance
      then
        let percent = (1 - \<bar>leftElbow (imgResult s) - leftElbow (userResult s)\<bar> / distance) * 100
        in s\<lparr>score_innerHTML := ''SCORE'' @ '': '' @ Number_toString (Math_round percent)\<rparr>
      else s)"

subsection \<open>The arithmetic of doubles\<close>

text \<open>
  A finite double is \<open>m * 2 ^ e\<close> with \<open>|m| < 2 ^ 53\<close> and \<open>- 1074 \<le> e \<le> 971\<close>. An
  arithmetic operation of the host returns the exact result rounded to the nearest
  double, a tie going to the even \<open>m\<close>. \<open>double_round\<close> is that rounding on the reals:
  \<open>ulp_exponent v\<close> is the exponent \<open>e\<close> of the doubles around \<open>v\<close>, found by counting
  up from the smallest one, and \<open>v\<close> is rounded to a multiple of \<open>2 ^ e\<close>. A result
  beyond the largest double, which the host makes \<open>Infinity\<close>, stays finite here and
  above every double; \<open>NaN\<close> has no counterpart.
\<close>

definition round_half_even :: "real \<Rightarrow> int" where
  "round_half_even q =
     (let f = \<lfloor>q\<rfloor>
      in if q - of_int f < 1 / 2 then f
         else if 1 / 2 < q - of_int f then f + 1
         else if even f then f else f + 1)"

fun ulp_search :: "nat \<Rightarrow> int \<Rightarrow> real \<Rightarrow> int" where
  "ulp_search 0 e a = e"
| "ulp_search (Suc n) e a = (if 2 powi (e + 53) \<le> a then ulp_search n (e + 1) a else e)"

definition ulp_exponent :: "real \<Rightarrow> int" where
  "ulp_exponent v = ulp_search 2045 (- 1074) \<bar>v\<bar>"

definition double_round :: "real \<Rightarrow> real" where
  "double_round v = of_int (round_half_even (v / 2 powi ulp_exponent v)) * 2 powi ulp_exponent v"

text \<open>
  \<open>recalculate\<close> (lines 265-271) with the arithmetic of doubles: the subtraction, the
  division, the second subtraction and the multiplication each round their result.
  \<open>Math.abs\<close> and the comparison are exact, and \<open>Math.round\<close> returns the integer nearest
  to its argument, a tie going up. \<open>recalculate\<close> above is the same code over the reals;
  the two agree wherever no operation rounds.
\<close>

definition recalculate_double :: "state \<Rightarrow> state" where
  "recalculate_double s =
     (if leftElbow (userResult s) \<noteq> 0
         \<and> \<bar>double_round (leftElbow (imgResult s) - leftElbow (userResult s))\<bar> \<le> distance
      then
        let percent =
          double_round
            (double_round
               (1 - double_round
                      (\<bar>double_round (leftElbow (imgResult s) - leftElbow (userResult s))\<bar> / distance))
             * 100)
        in s\<lparr>score_innerHTML := ''SCORE'' @ '': '' @ Number_toString (Math_round percent)\<rparr>
      else s)"

text \<open>The percentage that \<open>recalculate_double\<close> computes from the delta \<open>d\<close>.\<close>

abbreviation percent_double :: "real \<Rightarrow> real" where
  "percent_double d \<equiv> double_round (double_round (1 - double_round (d / distance)) * 100)"

subsection \<open>The frame loop\<close>

text \<open>
  The callback of \<open>poses.forEach\<close> (lines 161-175) for one pose. The drawing calls only
  paint the canvas and are left out. When \<open>calculateAngle\<close> throws, the exception leaves
  the callback with the state as it then is.
\<close>

definition forEach_body :: "calculateAngle \<Rightarrow> real \<Rightarrow> pose \<Rightarrow> state \<Rightarrow> error option \<times> state" where
  "forEach_body calc minPoseConf p s =
     (if minPoseConf \<le> pose_score p
      then
        (case calc (js_index (keypoints p) 9) (js_index (keypoints p) 7) (js_index (keypoints p) 5) of
           Inl e \<Rightarrow> (Some e, s)
         | Inr a \<Rightarrow> (None, recalculate (s\<lparr>userResult := (userResult s)\<lparr>leftElbow := a\<rparr>\<rparr>)))
      else (None, s))"

fun forEach :: "calculateAngle \<Rightarrow> real \<Rightarrow> pose list \<Rightarrow> state \<Rightarrow> error option \<times> state" where
  "forEach calc minPoseConf [] s = (None, s)"
| "forEach calc minPoseConf (p # ps) s =
     (case forEach_body calc minPoseConf p s of
        (Some e, s') \<Rightarrow> (Some e, s')
      | (None, s') \<Rightarrow> forEach calc minPoseConf ps s')"

text \<open>
  \<open>poseDetectionFrame\<close> up to its \<open>await\<close> (lines 120-146): either case of the switch
  issues one \<open>estimatePoses\<close> call on the video.
\<close>

definition poseDetectionFrame :: "state \<Rightarrow> state" where
  "poseDetectionFrame s = s\<lparr>frame_pending := Suc (frame_pending s)\<rparr>"

text \<open>
  \<open>poseDetectionFrame\<close> from the point where the awaited call has resolved with
  \<open>estimated\<close> (lines 130-177). An exception of the callback rejects the tick's promise,
  and \<open>requestAnimationFrame\<close> is not reached.
\<close>

definition poseDetectionFrame_resolved :: "calculateAngle \<Rightarrow> gui \<Rightarrow> pose list \<Rightarrow> state \<Rightarrow> state" where
  "poseDetectionFrame_resolved calc g estimated s =
     (let poses = [] @ estimated;
          minPoseConf =
            (case algorithm g of
               SinglePose \<Rightarrow> minPoseConfidence (singlePoseDetection g)
             | MultiPose \<Rightarrow> minPoseConfidence (multiPoseDetection g))
      in case forEach calc minPoseConf poses s of
           (Some e, s') \<Rightarrow> s'\<lparr>frame_error := Some e\<rparr>
         | (None, s') \<Rightarrow> s'\<lparr>raf_pending := Suc (raf_pending s')\<rparr>)"

text \<open>The awaited call has failed: the tick's promise is rejected.\<close>

definition poseDetectionFrame_rejected :: "state \<Rightarrow> state" where
  "poseDetectionFrame_rejected s = s\<lparr>frame_error := Some Rejected\<rparr>"

text \<open>\<open>detectPoseInRealTime\<close> (lines 107-181) sets the canvas up and calls the first tick.\<close>

definition detectPoseInRealTime :: "state \<Rightarrow> state" where
  "detectPoseInRealTime s = poseDetectionFrame s"

subsection \<open>The reference load\<close>

definition disposePoses :: "state \<Rightarrow> state" where
  "disposePoses s = (if predictedPoses s \<noteq> None then s\<lparr>predictedPoses := None\<rparr> else s)"

text \<open>\<open>testImageAndEstimatePoses\<close> up to \<open>await loadImage\<close> (lines 208-213).\<close>

definition testImageAndEstimatePoses :: "state \<Rightarrow> state" where
  "testImageAndEstimatePoses s = (disposePoses s)\<lparr>ref_pc := AwaitLoadImage\<rparr>"

text \<open>The image has loaded: the tensor is made and the estimation is called (lines 216-225).\<close>

definition testImageAndEstimatePoses_loaded :: "state \<Rightarrow> state" where
  "testImageAndEstimatePoses_loaded s = s\<lparr>input := Live, ref_pc := AwaitEstimate\<rparr>"

text \<open>
  The estimation has resolved with \<open>poses\<close> (lines 226-232). Reading \<open>score\<close> of
  \<open>undefined\<close> throws a \<open>TypeError\<close>.
\<close>

definition testImageAndEstimatePoses_resolved :: "calculateAngle \<Rightarrow> gui \<Rightarrow> pose list \<Rightarrow> state \<Rightarrow> state" where
  "testImageAndEstimatePoses_resolved calc g poses s =
     (case js_index poses 0 of
        None \<Rightarrow> s\<lparr>predictedPoses := None, ref_pc := Threw TypeError\<rparr>
      | Some p \<Rightarrow>
          (let s1 = s\<lparr>predictedPoses := Some p\<rparr>
           in if minPoseConfidence (singlePoseDetection g) \<le> pose_score p
              then
                (case calc (js_index (keypoints p) 9) (js_index (keypoints p) 7) (js_index (keypoints p) 5) of
                   Inl e \<Rightarrow> s1\<lparr>ref_pc := Threw e\<rparr>
                 | Inr a \<Rightarrow> s1\<lparr>imgResult := (imgResult s1)\<lparr>leftElbow := a\<rparr>, input := Disposed, ref_pc := Returned\<rparr>)
              else s1\<lparr>input := Disposed, ref_pc := Returned\<rparr>))"

text \<open>The estimation has failed: the exception leaves the function at the \<open>await\<close>.\<close>

definition testImageAndEstimatePoses_rejected :: "state \<Rightarrow> state" where
  "testImageAndEstimatePoses_rejected s = s\<lparr>ref_pc := Threw Rejected\<rparr>"

subsection \<open>Startup and the event loop\<close>

text \<open>
  The module-level initial values (lines 96-101, 196-197); \<open>d\<close> is what the page shows
  in \<open>#score-placeholder\<close> at first.
\<close>

definition init :: "string \<Rightarrow> state" where
  "init d =
     \<lparr>userResult = \<lparr>leftElbow = 0\<rparr>, imgResult = \<lparr>leftElbow = 0\<rparr>, score_innerHTML = d,
      predictedPoses = None, frame_pending = 0, raf_pending = 0, frame_error = None,
      ref_pc = NotStarted, input = NotCreated\<rparr>"

text \<open>\<open>bindPage\<close> once the model and the camera are there (lines 260-262).\<close>

definition bindPage :: "state \<Rightarrow> state" where
  "bindPage s = testImageAndEstimatePoses (detectPoseInRealTime s)"

text \<open>
  What the host can deliver: the settlement of a pending \<open>estimatePoses\<close> call of the
  frame loop, a display refresh, the load of the reference image, the settlement of the
  reference estimation. \<open>loadImage\<close> has no \<open>onerror\<close> handler, so its promise never
  rejects.
\<close>

datatype event =
    FrameResolved "pose list"
  | FrameRejected
  | AnimationFrame
  | ImageLoaded
  | RefResolved "pose list"
  | RefRejected

text \<open>An event that has nothing pending to settle cannot happen: \<open>None\<close>.\<close>

fun step :: "calculateAngle \<Rightarrow> gui \<Rightarrow> event \<Rightarrow> state \<Rightarrow> state option" where
  "step calc g (FrameResolved ps) s =
     (if frame_pending s = 0 then None
      else Some (poseDetectionFrame_resolved calc g ps (s\<lparr>frame_pending := frame_pending s - 1\<rparr>)))"
| "step calc g FrameRejected s =
     (if frame_pending s = 0 then None
      else Some (poseDetectionFrame_rejected (s\<lparr>frame_pending := frame_pending s - 1\<rparr>)))"
| "step calc g AnimationFrame s =
     (if raf_pending s = 0 then None
      else Some (poseDetectionFrame (s\<lparr>raf_pending := raf_pending s - 1\<rparr>)))"
| "step calc g ImageLoaded s =
     (if ref_pc s = AwaitLoadImage then Some (testImageAndEstimatePoses_loaded s) else None)"
| "step calc g (RefResolved ps) s =
     (if ref_pc s = AwaitEstimate then Some (testImageAndEstimatePoses_resolved calc g ps s) else None)"
| "step calc g RefRejected s =
     (if ref_pc s = AwaitEstimate then Some (testImageAndEstimatePoses_rejected s) else None)"

fun run :: "calculateAngle \<Rightarrow> gui \<Rightarrow> event list \<Rightarrow> state \<Rightarrow> state option" where
  "run calc g [] s = Some s"
| "run calc g (e # es) s =
     (case step calc g e s of None \<Rightarrow> None | Some s' \<Rightarrow> run calc g es s')"

subsection \<open>The angle calculation\<close>

text \<open>
  Modelled from the spec: \<open>calculateAngle\<close> of \<open>./utils\<close> is not among the sources.
  The spec's \<open>angleOf(vertex, pointA, pointB)\<close> is the angle at \<open>vertex\<close> between the
  rays to \<open>pointA\<close> and \<open>pointB\<close>, by the dot product and the arccosine, in degrees;
  it fails with \<open>DegenerateGeometry\<close> when \<open>vertex\<close> coincides with \<open>pointA\<close> or
  \<open>pointB\<close>.
\<close>

definition angleOf :: "position \<Rightarrow> position \<Rightarrow> position \<Rightarrow> error + real" where
  "angleOf vertex pointA pointB =
     (let ax = x pointA - x vertex; ay = y pointA - y vertex;
          bx = x pointB - x vertex; by = y pointB - y vertex
      in if (ax = 0 \<and> ay = 0) \<or> (bx = 0 \<and> by = 0) then Inl DegenerateGeometry
         else Inr (arccos ((ax * bx + ay * by) / (sqrt (ax * ax + ay * ay) * sqrt (bx * bx + by * by)))
                   * 180 / pi))"

subsection \<open>The angle calculation at the call sites\<close>

text \<open>
  Modelled from the spec: \<open>calculateAngle\<close> of \<open>./utils\<close> is not among the sources.
  The spec computes the elbow feature from the triple (elbow vertex, wrist, shoulder), and
  both call sites pass keypoints 9 (left wrist), 7 (left elbow) and 5 (left shoulder) in
  this order, so the second argument is the vertex. Reading the position of \<open>undefined\<close>
  throws a \<open>TypeError\<close>.
\<close>

definition calculateAngle_spec :: calculateAngle where
  "calculateAngle_spec a b c =
     (case (a, b, c) of
        (Some ka, Some kb, Some kc) \<Rightarrow> angleOf (position kb) (position ka) (position kc)
      | _ \<Rightarrow> Inl TypeError)"

text \<open>
  A pose as the estimation returns it, with 17 keypoints, for the concrete instances
  below: the given pose score, and the given positions of the left wrist, the left elbow
  and the left shoulder.
\<close>

definition pose_with :: "real \<Rightarrow> position \<Rightarrow> position \<Rightarrow> position \<Rightarrow> pose" where
  "pose_with sc wrist elbow shoulder =
     \<lparr>pose_score = sc,
      keypoints =
        (replicate 17 \<lparr>kp_score = 1, part = [], position = \<lparr>x = 0, y = 0\<rparr>\<rparr>)
          [9 := \<lparr>kp_score = 1, part = [], position = wrist\<rparr>,
           7 := \<lparr>kp_score = 1, part = [], position = elbow\<rparr>,
           5 := \<lparr>kp_score = 1, part = [], position = shoulder\<rparr>]\<rparr>"

subsection \<open>The invariant of the frame loop\<close>

text \<open>
  At most one thing of the frame loop is outstanding: an \<open>estimatePoses\<close> call that has
  not settled, or a registered \<open>requestAnimationFrame\<close> callback that has not run.
\<close>

definition single_flight :: "state \<Rightarrow> bool" where
  "single_flight s \<longleftrightarrow> frame_pending s + raf_pending s \<le> 1"

section \<open>Properties\<close>

subsection \<open>Helper facts about the score\<close>


lemma recalculate_falsy:
  "leftElbow (userResult s) = 0 \<Longrightarrow> recalculate s = s"
  by (simp add: recalculate_def)


lemma Number_toString_100: "Number_toString 100 = ''100''"
  by (simp add: Number_toString_def digits.simps digit_def)

lemma Number_toString_50: "Number_toString 50 = ''50''"
  by (simp add: Number_toString_def digits.simps digit_def)

lemma Number_toString_0: "Number_toString 0 = ''0''"
  by (simp add: Number_toString_def digits.simps digit_def)

subsection \<open>Rounding to the nearest double\<close>

lemma two_powi_less_D: "(2::real) powi a < 2 powi b \<Longrightarrow> a < b"
proof (rule ccontr)
  assume lt: "(2::real) powi a < 2 powi b" and "\<not> a < b"
  then have "b \<le> a" by simp
  then have "(2::real) powi b \<le> 2 powi a"
    by (intro power_int_increasing) simp_all
  with lt show False by simp
qed

lemma round_half_even_of_int: "round_half_even (of_int n) = n"
  by (simp add: round_half_even_def)

lemma round_half_even_cases:
  "round_half_even q = \<lfloor>q\<rfloor> \<or> round_half_even q = \<lfloor>q\<rfloor> + 1"
  by (simp add: round_half_even_def Let_def)

lemma round_half_even_mono: "q \<le> q' \<Longrightarrow> round_half_even q \<le> round_half_even q'"
proof -
  assume le: "q \<le> q'"
  then have fl: "\<lfloor>q\<rfloor> \<le> \<lfloor>q'\<rfloor>" by (rule floor_mono)
  show ?thesis
  proof (cases "\<lfloor>q\<rfloor> = \<lfloor>q'\<rfloor>")
    case True
    with le show ?thesis
      by (auto simp: round_half_even_def Let_def)
  next
    case False
    with fl have "\<lfloor>q\<rfloor> + 1 \<le> \<lfloor>q'\<rfloor>" by simp
    moreover have "round_half_even q \<le> \<lfloor>q\<rfloor> + 1"
      using round_half_even_cases [of q] by auto
    moreover have "\<lfloor>q'\<rfloor> \<le> round_half_even q'"
      using round_half_even_cases [of q'] by auto
    ultimately show ?thesis by linarith
  qed
qed

lemma round_half_even_error: "\<bar>of_int (round_half_even q) - q\<bar> \<le> 1 / 2"
proof -
  have "of_int \<lfloor>q\<rfloor> \<le> q" "q < of_int \<lfloor>q\<rfloor> + 1" by linarith+
  then show ?thesis
    by (auto simp: round_half_even_def Let_def abs_le_iff)
qed

lemma ulp_search_bounds: "e0 \<le> ulp_search n e0 a \<and> ulp_search n e0 a \<le> e0 + int n"
proof (induction n arbitrary: e0)
  case 0
  then show ?case by simp
next
  case (Suc n)
  from Suc [of "e0 + 1"] show ?case by auto
qed

lemma ulp_search_lower:
  "ulp_search n e0 a = e0 \<or> 2 powi (ulp_search n e0 a + 52) \<le> a"
proof (induction n arbitrary: e0)
  case 0
  then show ?case by simp
next
  case (Suc n)
  show ?case
  proof (cases "2 powi (e0 + 53) \<le> a")
    case True
    from Suc [of "e0 + 1"] show ?thesis
    proof
      assume "ulp_search n (e0 + 1) a = e0 + 1"
      with True show ?thesis by (simp add: add.commute add.left_commute)
    next
      assume "2 powi (ulp_search n (e0 + 1) a + 52) \<le> a"
      with True show ?thesis by simp
    qed
  next
    case False
    then show ?thesis by simp
  qed
qed

lemma ulp_search_upper:
  "ulp_search n e0 a = e0 + int n \<or> a < 2 powi (ulp_search n e0 a + 53)"
proof (induction n arbitrary: e0)
  case 0
  then show ?case by simp
next
  case (Suc n)
  from Suc [of "e0 + 1"] show ?case by auto
qed

lemma ulp_search_mono: "a \<le> b \<Longrightarrow> ulp_search n e0 a \<le> ulp_search n e0 b"
proof (induction n arbitrary: e0)
  case 0
  then show ?case by simp
next
  case (Suc n)
  from ulp_search_bounds [of "e0 + 1" n b] have "e0 \<le> ulp_search n (e0 + 1) b" by simp
  with Suc show ?case by auto
qed

lemma ulp_search_unique:
  "e0 \<le> E \<Longrightarrow> E \<le> e0 + int n \<Longrightarrow> E = e0 \<or> 2 powi (E + 52) \<le> a \<Longrightarrow> a < 2 powi (E + 53) \<Longrightarrow>
   ulp_search n e0 a = E"
proof (induction n arbitrary: e0)
  case 0
  then show ?case by simp
next
  case (Suc n)
  show ?case
  proof (cases "2 powi (e0 + 53) \<le> a")
    case True
    with Suc.prems(4) have "(2::real) powi (e0 + 53) < 2 powi (E + 53)" by linarith
    then have "e0 + 53 < E + 53"
      by (rule two_powi_less_D)
    then have lt: "e0 < E" by simp
    with Suc.prems(3) have "E = e0 + 1 \<or> 2 powi (E + 52) \<le> a" by simp
    with Suc.IH [of "e0 + 1"] lt Suc.prems(2,4) True show ?thesis by simp
  next
    case False
    have "E = e0"
    proof (rule ccontr)
      assume "E \<noteq> e0"
      with Suc.prems(1,3) have "e0 + 53 \<le> E + 52" "2 powi (E + 52) \<le> a" by auto
      then have "(2::real) powi (e0 + 53) \<le> a"
        using power_int_increasing [of "e0 + 53" "E + 52" "2::real"] by simp
      with False show False by simp
    qed
    with False show ?thesis by simp
  qed
qed

lemma ulp_exponent_range: "- 1074 \<le> ulp_exponent v \<and> ulp_exponent v \<le> 971"
  using ulp_search_bounds [of "- 1074" 2045 "\<bar>v\<bar>"] by (simp add: ulp_exponent_def)

lemma ulp_exponent_lower: "ulp_exponent v = - 1074 \<or> 2 powi (ulp_exponent v + 52) \<le> \<bar>v\<bar>"
  using ulp_search_lower [of 2045 "- 1074" "\<bar>v\<bar>"] by (simp add: ulp_exponent_def)

lemma ulp_exponent_upper: "ulp_exponent v = 971 \<or> \<bar>v\<bar> < 2 powi (ulp_exponent v + 53)"
  using ulp_search_upper [of 2045 "- 1074" "\<bar>v\<bar>"] by (simp add: ulp_exponent_def)

lemma ulp_exponent_mono: "\<bar>v\<bar> \<le> \<bar>w\<bar> \<Longrightarrow> ulp_exponent v \<le> ulp_exponent w"
  by (simp add: ulp_exponent_def ulp_search_mono)

lemma ulp_exponent_eq:
  "- 1074 \<le> E \<Longrightarrow> E \<le> 971 \<Longrightarrow> E = - 1074 \<or> 2 powi (E + 52) \<le> \<bar>v\<bar> \<Longrightarrow> \<bar>v\<bar> < 2 powi (E + 53) \<Longrightarrow>
   ulp_exponent v = E"
  unfolding ulp_exponent_def by (rule ulp_search_unique) simp_all

lemma double_round_grid:
  "double_round v = of_int (round_half_even (v / 2 powi ulp_exponent v)) * 2 powi ulp_exponent v"
  by (simp add: double_round_def)

lemma double_round_exact:
  assumes v: "v = of_int m * 2 powi k" and m: "\<bar>m\<bar> < 2 ^ 53" and k: "- 1074 \<le> k"
  shows "double_round v = v"
proof -
  let ?e = "ulp_exponent v"
  have ek: "?e \<le> k"
  proof (rule disjE [OF ulp_exponent_lower [of v]])
    assume "?e = - 1074"
    with k show ?thesis by simp
  next
    assume l: "2 powi (?e + 52) \<le> \<bar>v\<bar>"
    have "\<bar>v\<bar> = \<bar>of_int m\<bar> * 2 powi k"
      by (simp add: v abs_mult)
    also have "\<dots> < 2 ^ 53 * 2 powi k"
    proof (rule mult_strict_right_mono)
      from m have "(of_int \<bar>m\<bar> :: real) < of_int (2 ^ 53)" by (simp only: of_int_less_iff)
      then show "\<bar>of_int m :: real\<bar> < 2 ^ 53" by simp
    qed simp
    also have "\<dots> = 2 powi (k + 53)"
      by (simp add: power_int_add)
    finally have "(2::real) powi (?e + 52) < 2 powi (k + 53)"
      using l by linarith
    then have "?e + 52 < k + 53"
      by (rule two_powi_less_D)
    then show ?thesis by simp
  qed
  then obtain d where d: "k = ?e + int d"
    by (metis zle_iff_zadd)
  have "v / 2 powi ?e = of_int m * 2 powi (k - ?e)"
    by (simp add: v power_int_diff)
  also have "\<dots> = of_int (m * 2 ^ d)"
    by (simp add: d)
  finally have "round_half_even (v / 2 powi ?e) = m * 2 ^ d"
    by (simp only: round_half_even_of_int)
  then have "double_round v = of_int (m * 2 ^ d) * 2 powi ?e"
    by (simp only: double_round_grid)
  also have "\<dots> = of_int m * (2 powi int d * 2 powi ?e)"
    by simp
  also have "\<dots> = of_int m * 2 powi k"
    by (simp add: d power_int_add add.commute)
  finally show ?thesis by (simp add: v)
qed

lemma double_round_0: "double_round 0 = 0"
  using double_round_exact [of 0 0 0] by simp

lemma double_round_int: "\<bar>m\<bar> < 2 ^ 53 \<Longrightarrow> double_round (of_int m) = of_int m"
  using double_round_exact [of "of_int m" m 0] by simp

lemma double_round_mono_nonneg:
  assumes "0 \<le> v" and "v \<le> w"
  shows "double_round v \<le> double_round w"
proof -
  let ?e = "ulp_exponent v" and ?f = "ulp_exponent w"
  from assms have ef: "?e \<le> ?f" by (intro ulp_exponent_mono) simp
  show ?thesis
  proof (cases "?e = ?f")
    case True
    from assms(2) have "v / 2 powi ?f \<le> w / 2 powi ?f"
      by (simp add: divide_right_mono)
    then have "round_half_even (v / 2 powi ?f) \<le> round_half_even (w / 2 powi ?f)"
      by (rule round_half_even_mono)
    then have "(of_int (round_half_even (v / 2 powi ?f)) :: real) * 2 powi ?f
        \<le> of_int (round_half_even (w / 2 powi ?f)) * 2 powi ?f"
      by (intro mult_right_mono) simp_all
    with True show ?thesis by (simp add: double_round_grid)
  next
    case False
    with ef have lt: "?e < ?f" by simp
    with ulp_exponent_range [of w] have "?e \<noteq> 971" by simp
    with ulp_exponent_upper [of v] assms(1) have vu: "v < 2 powi (?e + 53)" by simp
    from lt ulp_exponent_range [of v] have "?f \<noteq> - 1074" by simp
    with ulp_exponent_lower [of w] assms have wl: "2 powi (?f + 52) \<le> w" by simp
    have "v / 2 powi ?e \<le> 2 powi (?e + 53) / 2 powi ?e"
      using vu by (intro divide_right_mono) simp_all
    also have "\<dots> = of_int (2 ^ 53)"
      by (simp add: power_int_add)
    finally have "round_half_even (v / 2 powi ?e) \<le> round_half_even (of_int (2 ^ 53))"
      by (rule round_half_even_mono)
    then have "round_half_even (v / 2 powi ?e) \<le> 2 ^ 53"
      by (simp only: round_half_even_of_int)
    then have "(of_int (round_half_even (v / 2 powi ?e)) :: real) \<le> of_int (2 ^ 53)"
      by (simp only: of_int_le_iff)
    then have "double_round v \<le> of_int (2 ^ 53) * 2 powi ?e"
      unfolding double_round_grid by (intro mult_right_mono) simp_all
    also have "\<dots> = 2 powi (?e + 53)"
      by (simp add: power_int_add)
    also have "\<dots> \<le> 2 powi (?f + 52)"
      using lt by (intro power_int_increasing) simp_all
    finally have a: "double_round v \<le> 2 powi (?f + 52)" .
    have "of_int (2 ^ 52) = (2::real) powi (?f + 52) / 2 powi ?f"
      by (simp add: power_int_add)
    also have "\<dots> \<le> w / 2 powi ?f"
      using wl by (intro divide_right_mono) simp_all
    finally have "round_half_even (of_int (2 ^ 52)) \<le> round_half_even (w / 2 powi ?f)"
      by (rule round_half_even_mono)
    then have "2 ^ 52 \<le> round_half_even (w / 2 powi ?f)"
      by (simp only: round_half_even_of_int)
    then have "(of_int (2 ^ 52) :: real) \<le> of_int (round_half_even (w / 2 powi ?f))"
      by (simp only: of_int_le_iff)
    then have "of_int (2 ^ 52) * 2 powi ?f \<le> double_round w"
      unfolding double_round_grid by (intro mult_right_mono) simp_all
    moreover have "of_int (2 ^ 52) * 2 powi ?f = (2::real) powi (?f + 52)"
      by (simp add: power_int_add)
    ultimately have "2 powi (?f + 52) \<le> double_round w" by simp
    with a show ?thesis by linarith
  qed
qed

lemma double_round_nonneg: "0 \<le> v \<Longrightarrow> 0 \<le> double_round v"
  using double_round_mono_nonneg [of 0 v] by (simp add: double_round_0)

lemma double_round_error:
  assumes "\<bar>v\<bar> < 128"
  shows "\<bar>double_round v - v\<bar> \<le> 2 powi (- 47)"
proof -
  let ?e = "ulp_exponent v"
  have e: "?e \<le> - 46"
  proof (rule disjE [OF ulp_exponent_lower [of v]])
    assume "?e = - 1074"
    then show ?thesis by simp
  next
    assume "2 powi (?e + 52) \<le> \<bar>v\<bar>"
    with assms have "(2::real) powi (?e + 52) < 2 powi 7" by simp
    then have "?e + 52 < 7"
      by (rule two_powi_less_D)
    then show ?thesis by simp
  qed
  have "double_round v - v = (of_int (round_half_even (v / 2 powi ?e)) - v / 2 powi ?e) * 2 powi ?e"
    by (simp add: double_round_grid algebra_simps)
  then have "\<bar>double_round v - v\<bar> = \<bar>of_int (round_half_even (v / 2 powi ?e)) - v / 2 powi ?e\<bar> * 2 powi ?e"
    by (simp add: abs_mult)
  also have "\<dots> \<le> 1 / 2 * 2 powi ?e"
    by (intro mult_right_mono round_half_even_error) simp
  also have "\<dots> = 2 powi (?e - 1)"
    by (simp add: power_int_diff)
  also have "\<dots> \<le> 2 powi (- 47)"
    using e by (intro power_int_increasing) simp_all
  finally show ?thesis .
qed

subsection \<open>The score formula\<close>

lemma double_round_eval:
  "- 1074 \<le> E \<Longrightarrow> E \<le> 971 \<Longrightarrow> E = - 1074 \<or> 2 powi (E + 52) \<le> \<bar>v\<bar> \<Longrightarrow> \<bar>v\<bar> < 2 powi (E + 53) \<Longrightarrow>
   double_round v = of_int (round_half_even (v / 2 powi E)) * 2 powi E"
  by (simp add: double_round_grid ulp_exponent_eq)

lemma double_round_1: "double_round 1 = 1"
  using double_round_int [of 1] by simp

lemma double_round_half: "double_round (1 / 2) = 1 / 2"
  using double_round_exact [of "1 / 2" 1 "- 1"] by simp

lemma Math_round_mono: "v \<le> w \<Longrightarrow> Math_round v \<le> Math_round w"
  unfolding Math_round_def by (rule floor_mono) simp

lemma Math_round_error: "\<bar>of_int (Math_round v) - v\<bar> \<le> 1 / 2"
  unfolding Math_round_def by linarith

lemma Math_round_of_int: "Math_round (of_int n) = n"
  unfolding Math_round_def by linarith

lemma percent_double_steps:
  assumes "0 \<le> d" and "d \<le> distance"
  shows "0 \<le> double_round (d / distance) \<and> double_round (d / distance) \<le> 1"
    and "0 \<le> double_round (1 - double_round (d / distance))
         \<and> double_round (1 - double_round (d / distance)) \<le> 1"
    and "0 \<le> percent_double d \<and> percent_double d \<le> 100"
proof -
  let ?a = "double_round (d / distance)"
  let ?b = "double_round (1 - ?a)"
  from assms have q: "0 \<le> d / distance" "d / distance \<le> 1"
    by (simp_all add: distance_def)
  from double_round_nonneg [OF q(1)] double_round_mono_nonneg [OF q]
  show a: "0 \<le> ?a \<and> ?a \<le> 1" by (simp add: double_round_1)
  then have r: "0 \<le> 1 - ?a" "1 - ?a \<le> 1" by simp_all
  from double_round_nonneg [OF r(1)] double_round_mono_nonneg [OF r]
  show b: "0 \<le> ?b \<and> ?b \<le> 1" by (simp add: double_round_1)
  then have t: "0 \<le> ?b * 100" "?b * 100 \<le> 100" by simp_all
  from double_round_nonneg [OF t(1)] double_round_mono_nonneg [OF t] double_round_int [of 100]
  show "0 \<le> percent_double d \<and> percent_double d \<le> 100" by simp
qed

lemma percent_double_mono:
  assumes "0 \<le> d1" and "d1 \<le> d2" and "d2 \<le> distance"
  shows "percent_double d2 \<le> percent_double d1"
proof -
  let ?a1 = "double_round (d1 / distance)" and ?a2 = "double_round (d2 / distance)"
  from assms have "0 \<le> d1 / distance" "d1 / distance \<le> d2 / distance"
    by (simp_all add: distance_def)
  then have a: "?a1 \<le> ?a2" by (rule double_round_mono_nonneg)
  from assms have "0 \<le> d2" by simp
  from percent_double_steps(1) [OF this assms(3)] have "0 \<le> 1 - ?a2" by simp
  moreover from a have "1 - ?a2 \<le> 1 - ?a1" by simp
  ultimately have b: "double_round (1 - ?a2) \<le> double_round (1 - ?a1)"
    by (rule double_round_mono_nonneg)
  from percent_double_steps(2) [OF \<open>0 \<le> d2\<close> assms(3)]
  have "0 \<le> double_round (1 - ?a2) * 100" by simp
  moreover from b have "double_round (1 - ?a2) * 100 \<le> double_round (1 - ?a1) * 100" by simp
  ultimately show ?thesis by (rule double_round_mono_nonneg)
qed

lemma error_chain:
  fixes P A B Q u :: real
  assumes "\<bar>A - Q\<bar> \<le> u" and "\<bar>B - (1 - A)\<bar> \<le> u" and "\<bar>P - B * 100\<bar> \<le> u"
  shows "\<bar>P - (1 - Q) * 100\<bar> \<le> 201 * u"
proof -
  from assms have "- u \<le> A - Q" "A - Q \<le> u" "- u \<le> B - (1 - A)" "B - (1 - A) \<le> u"
    "- u \<le> P - B * 100" "P - B * 100 \<le> u"
    by (simp_all add: abs_le_iff)
  then have "P - (1 - Q) * 100 \<le> 201 * u" "- (201 * u) \<le> P - (1 - Q) * 100"
    by (simp_all add: algebra_simps)
  then show ?thesis by (simp add: abs_le_iff)
qed

lemma percent_double_error:
  assumes "0 \<le> d" and "d \<le> distance"
  shows "\<bar>percent_double d - (1 - d / distance) * 100\<bar> \<le> 2 powi (- 39)"
proof -
  let ?a = "double_round (d / distance)"
  let ?b = "double_round (1 - ?a)"
  let ?u = "(2::real) powi (- 47)"
  note st = percent_double_steps [OF assms]
  from assms have "\<bar>d / distance\<bar> < 128" by (simp add: distance_def)
  then have ea: "\<bar>?a - d / distance\<bar> \<le> ?u" by (rule double_round_error)
  from st(1) have "\<bar>1 - ?a\<bar> < 128" by simp
  then have eb: "\<bar>?b - (1 - ?a)\<bar> \<le> ?u" by (rule double_round_error)
  from st(2) have "\<bar>?b * 100\<bar> < 128" by simp
  then have ep: "\<bar>percent_double d - ?b * 100\<bar> \<le> ?u" by (rule double_round_error)
  have "\<bar>percent_double d - (1 - d / distance) * 100\<bar> \<le> 201 * ?u"
    using ea eb ep by (rule error_chain)
  also have "\<dots> \<le> 2 powi (- 39)"
    by simp
  finally show ?thesis .
qed

lemma recalculate_double_in:
  "leftElbow (userResult s) \<noteq> 0 \<Longrightarrow>
   \<bar>double_round (leftElbow (imgResult s) - leftElbow (userResult s))\<bar> \<le> distance \<Longrightarrow>
   score_innerHTML (recalculate_double s) =
     ''SCORE: '' @ Number_toString
        (Math_round (percent_double \<bar>double_round (leftElbow (imgResult s) - leftElbow (userResult s))\<bar>))"
  by (simp add: recalculate_double_def)

lemma recalculate_double_out:
  "distance < \<bar>double_round (leftElbow (imgResult s) - leftElbow (userResult s))\<bar> \<Longrightarrow>
   recalculate_double s = s"
  by (simp add: recalculate_double_def)

lemma recalculate_double_falsy:
  "leftElbow (userResult s) = 0 \<Longrightarrow> recalculate_double s = s"
  by (simp add: recalculate_double_def)

lemma percent_double_0: "percent_double 0 = 100"
  using double_round_int [of 100] by (simp add: double_round_0 double_round_1)

lemma percent_double_distance: "percent_double distance = 0"
  by (simp add: distance_def double_round_0 double_round_1)

lemma percent_double_10: "percent_double 10 = 50"
  using double_round_int [of 50] by (simp add: distance_def double_round_half)

lemma double_round_abs_20:
  assumes "\<bar>v\<bar> = 20"
  shows "\<bar>double_round v\<bar> = 20"
proof -
  from assms have "v = 20 \<or> v = - 20" by linarith
  then show ?thesis
  proof
    assume "v = 20"
    with double_round_int [of 20] show ?thesis by simp
  next
    assume "v = - 20"
    with double_round_int [of "- 20"] show ?thesis by simp
  qed
qed

lemma recalculate_double_exact:
  assumes "double_round (leftElbow (imgResult s) - leftElbow (userResult s))
      = leftElbow (imgResult s) - leftElbow (userResult s)"
    and "double_round (\<bar>leftElbow (imgResult s) - leftElbow (userResult s)\<bar> / distance)
      = \<bar>leftElbow (imgResult s) - leftElbow (userResult s)\<bar> / distance"
    and "double_round (1 - \<bar>leftElbow (imgResult s) - leftElbow (userResult s)\<bar> / distance)
      = 1 - \<bar>leftElbow (imgResult s) - leftElbow (userResult s)\<bar> / distance"
    and "double_round ((1 - \<bar>leftElbow (imgResult s) - leftElbow (userResult s)\<bar> / distance) * 100)
      = (1 - \<bar>leftElbow (imgResult s) - leftElbow (userResult s)\<bar> / distance) * 100"
  shows "recalculate_double s = recalculate s"
  by (simp only: recalculate_double_def recalculate_def assms)

lemma Math_round_near:
  assumes "\<bar>w - v\<bar> \<le> u" and "u < \<bar>v - (of_int \<lfloor>v\<rfloor> + 1 / 2)\<bar>"
  shows "Math_round w = round v"
proof -
  have f: "of_int \<lfloor>v\<rfloor> \<le> v" "v < of_int \<lfloor>v\<rfloor> + 1" by linarith+
  show ?thesis
  proof (cases "v < of_int \<lfloor>v\<rfloor> + 1 / 2")
    case True
    with assms f have "of_int \<lfloor>v\<rfloor> \<le> w + 1 / 2" "w + 1 / 2 < of_int \<lfloor>v\<rfloor> + 1"
      by linarith+
    then have "Math_round w = \<lfloor>v\<rfloor>"
      unfolding Math_round_def by (rule floor_unique)
    moreover from True f have "of_int \<lfloor>v\<rfloor> \<le> v + 1 / 2" "v + 1 / 2 < of_int \<lfloor>v\<rfloor> + 1"
      by linarith+
    then have "round v = \<lfloor>v\<rfloor>"
      unfolding round_def by (rule floor_unique)
    ultimately show ?thesis by simp
  next
    case False
    with assms f have "of_int \<lfloor>v\<rfloor> + 1 \<le> w + 1 / 2" "w + 1 / 2 < of_int \<lfloor>v\<rfloor> + 1 + 1"
      by linarith+
    then have "of_int (\<lfloor>v\<rfloor> + 1) \<le> w + 1 / 2" "w + 1 / 2 < of_int (\<lfloor>v\<rfloor> + 1) + 1"
      by simp_all
    then have "Math_round w = \<lfloor>v\<rfloor> + 1"
      unfolding Math_round_def by (rule floor_unique)
    moreover from False f have "of_int \<lfloor>v\<rfloor> + 1 \<le> v + 1 / 2" "v + 1 / 2 < of_int \<lfloor>v\<rfloor> + 1 + 1"
      by linarith+
    then have "of_int (\<lfloor>v\<rfloor> + 1) \<le> v + 1 / 2" "v + 1 / 2 < of_int (\<lfloor>v\<rfloor> + 1) + 1"
      by simp_all
    then have "round v = \<lfloor>v\<rfloor> + 1"
      unfolding round_def by (rule floor_unique)
    ultimately show ?thesis by simp
  qed
qed

lemma recalculate_double_at:
  assumes "l \<noteq> 0" and "double_round (r - l) = c" and "\<bar>c\<bar> \<le> distance"
    and "Math_round (percent_double \<bar>c\<bar>) = n"
  shows "score_innerHTML
           (recalculate_double ((init d)\<lparr>userResult := \<lparr>leftElbow = l\<rparr>, imgResult := \<lparr>leftElbow = r\<rparr>\<rparr>))
         = ''SCORE: '' @ Number_toString n"
  using assms
    recalculate_double_in [of "(init d)\<lparr>userResult := \<lparr>leftElbow = l\<rparr>, imgResult := \<lparr>leftElbow = r\<rparr>\<rparr>"]
  by simp

lemma Number_toString_57: "Number_toString 57 = ''57''"
  by (simp add: Number_toString_def digits.simps digit_def)

lemma percent_double_17_2:
  "percent_double (17 / 2) = 8092405580431359 / 140737488355328"
proof -
  have a: "double_round (17 / 2 / 20) = 7656119366529843 / 18014398509481984"
    by (subst double_round_eval [of "- 54"]) (simp_all add: round_half_even_def)
  have b: "double_round (1 - 7656119366529843 / 18014398509481984)
      = 2589569785738035 / 4503599627370496"
    by (subst double_round_eval [of "- 53"]) (simp_all add: round_half_even_def)
  have c: "double_round (2589569785738035 / 4503599627370496 * 100)
      = 8092405580431359 / 140737488355328"
    by (subst double_round_eval [of "- 47"]) (simp_all add: round_half_even_def)
  show ?thesis
    unfolding distance_def by (simp only: a b c)
qed

lemma Math_round_percent_double_16: "Math_round (percent_double (1 / 16)) = 100"
proof -
  have "\<bar>percent_double (1 / 16) - (1 - 1 / 16 / distance) * 100\<bar> \<le> 2 powi (- 39)"
    by (rule percent_double_error) (simp_all add: distance_def)
  moreover have "(2::real) powi (- 39) \<le> 1 / 16" by simp
  ultimately have "\<bar>percent_double (1 / 16) - 319 / 320 * 100\<bar> \<le> 1 / 16"
    by (simp add: distance_def)
  then have "100 \<le> percent_double (1 / 16) + 1 / 2" "percent_double (1 / 16) + 1 / 2 < 100 + 1"
    by linarith+
  then show ?thesis
    unfolding Math_round_def by (intro floor_unique) simp_all
qed

text \<open>
  C1, as the code has it. With reference angle \<open>r\<close>, live angle \<open>l\<close>, the tolerance
  \<open>distance = 20\<close> and the delta \<open>d = |r - l|\<close> as the code computes it: when a score is
  written (\<open>l\<close> is not zero and \<open>d \<le> 20\<close>) it is \<open>Math.round\<close> of the percentage
  \<open>(1 - d / 20) * 100\<close> computed in double arithmetic. That percentage is within
  \<open>2 ^ -39\<close> of the exact one, so the score is an integer from 0 to 100 within
  \<open>1/2 + 2 ^ -39\<close> of the exact percentage, and it is \<open>round\<close> of the exact percentage
  unless that lies within \<open>2 ^ -39\<close> of a half. The score is 100 at \<open>|r - l| = 0\<close> and 0
  at \<open>|r - l| = 20\<close>; a larger delta within the window never gives a larger score; for
  \<open>r = 90\<close> the live angles 90, 100 and 111 give 100, 50 and no write.
\<close>

theorem recalculate_double_score:
  assumes "leftElbow (imgResult s) = r" and "leftElbow (userResult s) = l"
    and "leftElbow (imgResult s') = r'" and "leftElbow (userResult s') = l'"
  shows "(l \<noteq> 0 \<and> \<bar>double_round (r - l)\<bar> \<le> distance \<longrightarrow>
            score_innerHTML (recalculate_double s) =
              ''SCORE: '' @ Number_toString (Math_round (percent_double \<bar>double_round (r - l)\<bar>))
          \<and> \<bar>percent_double \<bar>double_round (r - l)\<bar>
               - (1 - \<bar>double_round (r - l)\<bar> / distance) * 100\<bar> \<le> 2 powi (- 39)
          \<and> \<bar>of_int (Math_round (percent_double \<bar>double_round (r - l)\<bar>))
               - (1 - \<bar>double_round (r - l)\<bar> / distance) * 100\<bar> \<le> 1 / 2 + 2 powi (- 39)
          \<and> 0 \<le> Math_round (percent_double \<bar>double_round (r - l)\<bar>)
          \<and> Math_round (percent_double \<bar>double_round (r - l)\<bar>) \<le> 100)
       \<and> (l \<noteq> 0 \<and> \<bar>double_round (r - l)\<bar> \<le> distance
          \<and> 2 powi (- 39) < \<bar>(1 - \<bar>double_round (r - l)\<bar> / distance) * 100
                - (of_int \<lfloor>(1 - \<bar>double_round (r - l)\<bar> / distance) * 100\<rfloor> + 1 / 2)\<bar> \<longrightarrow>
            score_innerHTML (recalculate_double s) =
              ''SCORE: '' @ Number_toString (round ((1 - \<bar>double_round (r - l)\<bar> / distance) * 100)))
       \<and> (l \<noteq> 0 \<and> \<bar>r - l\<bar> = 0 \<longrightarrow> score_innerHTML (recalculate_double s) = ''SCORE: 100'')
       \<and> (l \<noteq> 0 \<and> \<bar>r - l\<bar> = distance \<longrightarrow> score_innerHTML (recalculate_double s) = ''SCORE: 0'')
       \<and> (l \<noteq> 0 \<and> l' \<noteq> 0 \<and> \<bar>double_round (r - l)\<bar> \<le> \<bar>double_round (r' - l')\<bar>
          \<and> \<bar>double_round (r' - l')\<bar> \<le> distance \<longrightarrow>
            score_innerHTML (recalculate_double s) =
              ''SCORE: '' @ Number_toString (Math_round (percent_double \<bar>double_round (r - l)\<bar>))
          \<and> score_innerHTML (recalculate_double s') =
              ''SCORE: '' @ Number_toString (Math_round (percent_double \<bar>double_round (r' - l')\<bar>))
          \<and> Math_round (percent_double \<bar>double_round (r' - l')\<bar>)
              \<le> Math_round (percent_double \<bar>double_round (r - l)\<bar>))
       \<and> (r = 90 \<and> l = 90 \<longrightarrow> score_innerHTML (recalculate_double s) = ''SCORE: 100'')
       \<and> (r = 90 \<and> l = 100 \<longrightarrow> score_innerHTML (recalculate_double s) = ''SCORE: 50'')
       \<and> (r = 90 \<and> l = 111 \<longrightarrow> recalculate_double s = s)"
proof -
  let ?d = "\<bar>double_round (r - l)\<bar>" and ?d' = "\<bar>double_round (r' - l')\<bar>"
  have formula: "score_innerHTML (recalculate_double s) =
      ''SCORE: '' @ Number_toString (Math_round (percent_double ?d))"
    if "l \<noteq> 0" "?d \<le> distance"
    using that assms(1,2) recalculate_double_in [of s] by simp
  have formula': "score_innerHTML (recalculate_double s') =
      ''SCORE: '' @ Number_toString (Math_round (percent_double ?d'))"
    if "l' \<noteq> 0" "?d' \<le> distance"
    using that assms(3,4) recalculate_double_in [of s'] by simp
  have err: "\<bar>percent_double ?d - (1 - ?d / distance) * 100\<bar> \<le> 2 powi (- 39)"
    if "?d \<le> distance"
    using that by (intro percent_double_error) simp_all
  have c1: "l \<noteq> 0 \<and> ?d \<le> distance \<longrightarrow>
        score_innerHTML (recalculate_double s) =
          ''SCORE: '' @ Number_toString (Math_round (percent_double ?d))
      \<and> \<bar>percent_double ?d - (1 - ?d / distance) * 100\<bar> \<le> 2 powi (- 39)
      \<and> \<bar>of_int (Math_round (percent_double ?d)) - (1 - ?d / distance) * 100\<bar>
          \<le> 1 / 2 + 2 powi (- 39)
      \<and> 0 \<le> Math_round (percent_double ?d)
      \<and> Math_round (percent_double ?d) \<le> 100"
  proof (intro impI conjI)
    assume h: "l \<noteq> 0 \<and> ?d \<le> distance"
    with formula show "score_innerHTML (recalculate_double s) =
        ''SCORE: '' @ Number_toString (Math_round (percent_double ?d))" by simp
    from h err show e: "\<bar>percent_double ?d - (1 - ?d / distance) * 100\<bar> \<le> 2 powi (- 39)"
      by simp
    from e Math_round_error [of "percent_double ?d"]
    show "\<bar>of_int (Math_round (percent_double ?d)) - (1 - ?d / distance) * 100\<bar>
        \<le> 1 / 2 + 2 powi (- 39)"
      by linarith
    from h have b: "0 \<le> percent_double ?d \<and> percent_double ?d \<le> 100"
      by (intro percent_double_steps(3)) simp_all
    then have "Math_round 0 \<le> Math_round (percent_double ?d)"
      by (intro Math_round_mono) simp
    then show "0 \<le> Math_round (percent_double ?d)"
      by (simp add: Math_round_def)
    from b have "Math_round (percent_double ?d) \<le> Math_round (of_int 100)"
      by (intro Math_round_mono) simp
    then show "Math_round (percent_double ?d) \<le> 100"
      by (simp only: Math_round_of_int)
  qed
  have c2: "l \<noteq> 0 \<and> ?d \<le> distance
      \<and> 2 powi (- 39) < \<bar>(1 - ?d / distance) * 100
            - (of_int \<lfloor>(1 - ?d / distance) * 100\<rfloor> + 1 / 2)\<bar> \<longrightarrow>
      score_innerHTML (recalculate_double s) =
        ''SCORE: '' @ Number_toString (round ((1 - ?d / distance) * 100))"
  proof
    assume h: "l \<noteq> 0 \<and> ?d \<le> distance
      \<and> 2 powi (- 39) < \<bar>(1 - ?d / distance) * 100
            - (of_int \<lfloor>(1 - ?d / distance) * 100\<rfloor> + 1 / 2)\<bar>"
    with err have "Math_round (percent_double ?d) = round ((1 - ?d / distance) * 100)"
      by (intro Math_round_near [of _ _ "2 powi (- 39)"]) simp_all
    with h formula show "score_innerHTML (recalculate_double s) =
        ''SCORE: '' @ Number_toString (round ((1 - ?d / distance) * 100))"
      by simp
  qed
  have c3: "l \<noteq> 0 \<and> \<bar>r - l\<bar> = 0 \<longrightarrow> score_innerHTML (recalculate_double s) = ''SCORE: 100''"
  proof
    assume h: "l \<noteq> 0 \<and> \<bar>r - l\<bar> = 0"
    then have z: "?d = 0" by (simp add: double_round_0)
    then have "?d \<le> distance" by (simp add: distance_def)
    with h formula have "score_innerHTML (recalculate_double s) =
        ''SCORE: '' @ Number_toString (Math_round (percent_double ?d))" by simp
    then show "score_innerHTML (recalculate_double s) = ''SCORE: 100''"
      by (simp only: z percent_double_0) (simp add: Math_round_def Number_toString_100)
  qed
  have c4: "l \<noteq> 0 \<and> \<bar>r - l\<bar> = distance \<longrightarrow> score_innerHTML (recalculate_double s) = ''SCORE: 0''"
  proof
    assume h: "l \<noteq> 0 \<and> \<bar>r - l\<bar> = distance"
    then have "\<bar>r - l\<bar> = 20" by (simp add: distance_def)
    then have "?d = 20" by (rule double_round_abs_20)
    then have z: "?d = distance" by (simp add: distance_def)
    with h formula have "score_innerHTML (recalculate_double s) =
        ''SCORE: '' @ Number_toString (Math_round (percent_double ?d))" by simp
    then show "score_innerHTML (recalculate_double s) = ''SCORE: 0''"
      by (simp only: z percent_double_distance) (simp add: Math_round_def Number_toString_0)
  qed
  have c5: "l \<noteq> 0 \<and> l' \<noteq> 0 \<and> ?d \<le> ?d' \<and> ?d' \<le> distance \<longrightarrow>
        score_innerHTML (recalculate_double s) =
          ''SCORE: '' @ Number_toString (Math_round (percent_double ?d))
      \<and> score_innerHTML (recalculate_double s') =
          ''SCORE: '' @ Number_toString (Math_round (percent_double ?d'))
      \<and> Math_round (percent_double ?d') \<le> Math_round (percent_double ?d)"
  proof (intro impI conjI)
    assume h: "l \<noteq> 0 \<and> l' \<noteq> 0 \<and> ?d \<le> ?d' \<and> ?d' \<le> distance"
    then have "?d \<le> distance" by linarith
    with h formula show "score_innerHTML (recalculate_double s) =
        ''SCORE: '' @ Number_toString (Math_round (percent_double ?d))" by simp
    from h formula' show "score_innerHTML (recalculate_double s') =
        ''SCORE: '' @ Number_toString (Math_round (percent_double ?d'))" by simp
    from h have "percent_double ?d' \<le> percent_double ?d"
      by (intro percent_double_mono) simp_all
    then show "Math_round (percent_double ?d') \<le> Math_round (percent_double ?d)"
      by (rule Math_round_mono)
  qed
  have c6: "r = 90 \<and> l = 90 \<longrightarrow> score_innerHTML (recalculate_double s) = ''SCORE: 100''"
    using c3 by simp
  have c7: "r = 90 \<and> l = 100 \<longrightarrow> score_innerHTML (recalculate_double s) = ''SCORE: 50''"
  proof
    assume h: "r = 90 \<and> l = 100"
    then have "r - l = of_int (- 10)" by simp
    then have "double_round (r - l) = - 10"
      using double_round_int [of "- 10"] by simp
    then have z: "?d = 10" by simp
    then have "?d \<le> distance" by (simp add: distance_def)
    with h formula have "score_innerHTML (recalculate_double s) =
        ''SCORE: '' @ Number_toString (Math_round (percent_double ?d))" by simp
    then show "score_innerHTML (recalculate_double s) = ''SCORE: 50''"
      by (simp only: z percent_double_10) (simp add: Math_round_def Number_toString_50)
  qed
  have c8: "r = 90 \<and> l = 111 \<longrightarrow> recalculate_double s = s"
  proof
    assume h: "r = 90 \<and> l = 111"
    then have "r - l = of_int (- 21)" by simp
    then have "double_round (r - l) = - 21"
      using double_round_int [of "- 21"] by simp
    with assms(1,2) show "recalculate_double s = s"
      by (intro recalculate_double_out) (simp add: distance_def)
  qed
  from c1 c2 c3 c4 c5 c6 c7 c8 show ?thesis by blast
qed

theorem recalculate_double_score_witness:
  "score_innerHTML (recalculate_double ((init [])\<lparr>userResult := \<lparr>leftElbow = 100\<rparr>, imgResult := \<lparr>leftElbow = 90\<rparr>\<rparr>))
     = ''SCORE: 50''
   \<and> Math_round (percent_double \<bar>double_round (90 - 105)\<bar>)
       \<le> Math_round (percent_double \<bar>double_round (90 - 100)\<bar>)"
proof -
  let ?s = "(init [])\<lparr>userResult := \<lparr>leftElbow = 100\<rparr>, imgResult := \<lparr>leftElbow = 90\<rparr>\<rparr>"
  let ?s' = "(init [])\<lparr>userResult := \<lparr>leftElbow = 105\<rparr>, imgResult := \<lparr>leftElbow = 90\<rparr>\<rparr>"
  have s: "leftElbow (imgResult ?s) = 90" "leftElbow (userResult ?s) = 100"
    and s': "leftElbow (imgResult ?s') = 90" "leftElbow (userResult ?s') = 105"
    by simp_all
  have a: "double_round (90 - 100) = - 10" using double_round_int [of "- 10"] by simp
  have b: "double_round (90 - 105) = - 15" using double_round_int [of "- 15"] by simp
  have h: "(100::real) \<noteq> 0 \<and> (105::real) \<noteq> 0
      \<and> \<bar>double_round (90 - 100)\<bar> \<le> \<bar>double_round (90 - 105)\<bar>
      \<and> \<bar>double_round (90 - 105)\<bar> \<le> distance"
    by (simp only: a b) (simp add: distance_def)
  have e: "(90::real) = 90 \<and> (100::real) = 100" by simp
  from recalculate_double_score [OF s s'] h e show ?thesis by blast
qed

text \<open>
  Neither half of the claim as stated holds. With reference 0 and live angle 8.5 the
  exact percentage is 57.5, whose \<open>round\<close> is 58, and the code shows 57; with reference
  90, the deltas 0 and 0.0625 are both within the window and both show 100.
\<close>

theorem recalculate_double_not_round_nor_strict:
  "score_innerHTML (recalculate_double ((init [])\<lparr>userResult := \<lparr>leftElbow = 17 / 2\<rparr>, imgResult := \<lparr>leftElbow = 0\<rparr>\<rparr>))
     = ''SCORE: 57''
   \<and> round ((1 - \<bar>0 - 17 / 2\<bar> / distance) * 100) = 58
   \<and> \<bar>90 - 90\<bar> < \<bar>90 - 1441 / (16::real)\<bar> \<and> \<bar>90 - 1441 / 16\<bar> \<le> distance
   \<and> score_innerHTML (recalculate_double ((init [])\<lparr>userResult := \<lparr>leftElbow = 90\<rparr>, imgResult := \<lparr>leftElbow = 90\<rparr>\<rparr>))
       = ''SCORE: 100''
   \<and> score_innerHTML (recalculate_double ((init [])\<lparr>userResult := \<lparr>leftElbow = 1441 / 16\<rparr>, imgResult := \<lparr>leftElbow = 90\<rparr>\<rparr>))
       = ''SCORE: 100''"
proof -
  have a: "double_round (0 - 17 / 2) = - (17 / 2)"
    using double_round_exact [of "- (17 / 2)" "- 17" "- 1"] by simp
  have b: "double_round (90 - 1441 / 16) = - (1 / 16)"
    using double_round_exact [of "- (1 / 16)" "- 1" "- 4"] by simp
  have c: "double_round (90 - 90) = 0"
    by (simp add: double_round_0)
  have p1: "Math_round (percent_double \<bar>- (17 / 2)\<bar>) = 57"
    by (simp only: abs_minus_cancel abs_divide abs_numeral percent_double_17_2)
      (simp add: Math_round_def)
  have p2: "Math_round (percent_double \<bar>- (1 / 16)\<bar>) = 100"
    by (simp only: abs_minus_cancel abs_divide abs_numeral abs_one Math_round_percent_double_16)
  have p3: "Math_round (percent_double \<bar>0\<bar>) = 100"
    by (simp only: abs_zero percent_double_0) (simp add: Math_round_def)
  have 1: "score_innerHTML (recalculate_double ((init [])\<lparr>userResult := \<lparr>leftElbow = 17 / 2\<rparr>, imgResult := \<lparr>leftElbow = 0\<rparr>\<rparr>))
     = ''SCORE: 57''"
    using recalculate_double_at [OF _ a _ p1, of "[]"]
    by (simp add: distance_def Number_toString_57)
  have 2: "round ((1 - \<bar>0 - 17 / 2\<bar> / distance) * 100) = 58"
    by (simp add: distance_def round_def)
  have 3: "score_innerHTML (recalculate_double ((init [])\<lparr>userResult := \<lparr>leftElbow = 90\<rparr>, imgResult := \<lparr>leftElbow = 90\<rparr>\<rparr>))
       = ''SCORE: 100''"
    using recalculate_double_at [OF _ c _ p3, of "[]"]
    by (simp add: distance_def Number_toString_100)
  have 4: "score_innerHTML (recalculate_double ((init [])\<lparr>userResult := \<lparr>leftElbow = 1441 / 16\<rparr>, imgResult := \<lparr>leftElbow = 90\<rparr>\<rparr>))
       = ''SCORE: 100''"
    using recalculate_double_at [OF _ b _ p2, of "[]"]
    by (simp add: distance_def Number_toString_100)
  have 5: "\<bar>90 - 90\<bar> < \<bar>90 - 1441 / (16::real)\<bar> \<and> \<bar>90 - 1441 / 16\<bar> \<le> distance"
    by (simp add: distance_def)
  from 1 2 3 4 5 show ?thesis by blast
qed

subsection \<open>Frames that write no score\<close>



text \<open>
  C9. When the live angle is 0 (computed as 0, or still the initial value), \<open>recalculate\<close>
  changes nothing, whatever the reference angle: also when the delta is within the
  tolerance.
\<close>

theorem recalculate_live_zero:
  "leftElbow (userResult s) = 0 \<Longrightarrow>
   recalculate s = s \<and> score_innerHTML (recalculate s) = score_innerHTML s"
  by (simp add: recalculate_falsy)

theorem recalculate_live_zero_witness:
  "\<bar>5 - (0::real)\<bar> \<le> distance
   \<and> score_innerHTML (recalculate ((init ''SCORE: 75'')\<lparr>userResult := \<lparr>leftElbow = 0\<rparr>, imgResult := \<lparr>leftElbow = 5\<rparr>\<rparr>))
       = ''SCORE: 75''"
  using recalculate_live_zero
    [of "(init ''SCORE: 75'')\<lparr>userResult := \<lparr>leftElbow = 0\<rparr>, imgResult := \<lparr>leftElbow = 5\<rparr>\<rparr>"]
  by (simp add: init_def distance_def)

subsection \<open>More helper facts\<close>

lemma recalculate_userResult: "userResult (recalculate s) = userResult s"
  by (simp add: recalculate_def Let_def)



subsection \<open>One estimation call in flight\<close>

lemma forEach_body_counters:
  "forEach_body calc m p s = (r, s') \<Longrightarrow>
   frame_pending s' = frame_pending s \<and> raf_pending s' = raf_pending s"
  by (auto simp: forEach_body_def recalculate_def Let_def split: if_splits sum.splits)

lemma forEach_counters:
  "forEach calc m ps s = (r, s') \<Longrightarrow>
   frame_pending s' = frame_pending s \<and> raf_pending s' = raf_pending s"
proof (induction ps arbitrary: s)
  case Nil
  then show ?case by simp
next
  case (Cons p ps)
  obtain r1 s1 where b: "forEach_body calc m p s = (r1, s1)"
    by (cases "forEach_body calc m p s")
  from forEach_body_counters [OF b]
  have k: "frame_pending s1 = frame_pending s \<and> raf_pending s1 = raf_pending s" .
  show ?case
  proof (cases r1)
    case None
    with Cons.prems b have "forEach calc m ps s1 = (r, s')" by simp
    from Cons.IH [OF this] k show ?thesis by simp
  next
    case (Some e)
    with Cons.prems b have "s' = s1" by simp
    with k show ?thesis by simp
  qed
qed

lemma step_single_flight:
  assumes "step calc g e s = Some s'" and "single_flight s"
  shows "single_flight s'"
proof (cases e)
  case (FrameResolved ps)
  let ?t = "s\<lparr>frame_pending := frame_pending s - 1\<rparr>"
  let ?m = "case algorithm g of SinglePose \<Rightarrow> minPoseConfidence (singlePoseDetection g)
             | MultiPose \<Rightarrow> minPoseConfidence (multiPoseDetection g)"
  from assms FrameResolved have pos: "frame_pending s \<noteq> 0"
    and s': "s' = poseDetectionFrame_resolved calc g ps ?t"
    by (auto split: if_splits)
  obtain r u where f: "forEach calc ?m ps ?t = (r, u)"
    by (cases "forEach calc ?m ps ?t")
  from forEach_counters [OF f]
  have k: "frame_pending u = frame_pending s - 1" "raf_pending u = raf_pending s" by simp_all
  from pos assms(2) have z: "frame_pending s = 1" "raf_pending s = 0"
    by (auto simp: single_flight_def)
  show ?thesis
    using s' f k z by (cases r) (simp_all add: poseDetectionFrame_resolved_def single_flight_def)
next
  case FrameRejected
  with assms show ?thesis
    by (auto simp: poseDetectionFrame_rejected_def single_flight_def split: if_splits)
next
  case AnimationFrame
  with assms show ?thesis
    by (auto simp: poseDetectionFrame_def single_flight_def split: if_splits)
next
  case ImageLoaded
  with assms show ?thesis
    by (auto simp: testImageAndEstimatePoses_loaded_def single_flight_def split: if_splits)
next
  case (RefResolved ps)
  with assms show ?thesis
    by (auto simp: testImageAndEstimatePoses_resolved_def single_flight_def Let_def
        split: if_splits option.splits sum.splits)
next
  case RefRejected
  with assms show ?thesis
    by (auto simp: testImageAndEstimatePoses_rejected_def single_flight_def split: if_splits)
qed

lemma run_single_flight:
  "run calc g evs s = Some s' \<Longrightarrow> single_flight s \<Longrightarrow> single_flight s'"
proof (induction evs arbitrary: s)
  case Nil
  then show ?case by simp
next
  case (Cons e evs)
  then obtain s1 where a: "step calc g e s = Some s1" and b: "run calc g evs s1 = Some s'"
    by (auto split: option.splits)
  from step_single_flight [OF a Cons.prems(2)] Cons.IH [OF b] show ?case by blast
qed

lemma bindPage_single_flight: "single_flight (bindPage (init d))"
  by (simp add: single_flight_def bindPage_def testImageAndEstimatePoses_def disposePoses_def
      detectPoseInRealTime_def poseDetectionFrame_def init_def)

text \<open>
  C4. In every state the frame loop reaches after startup, whatever the host delivers,
  at most one \<open>estimatePoses\<close> call of the loop is pending, and none is pending while a
  next tick is scheduled: a tick issues its call only when the previous call has settled
  and its continuation has run.
\<close>

theorem frame_loop_single_in_flight:
  "run calc g evs (bindPage (init d)) = Some s \<Longrightarrow>
   frame_pending s \<le> 1 \<and> frame_pending s + raf_pending s \<le> 1"
proof -
  assume "run calc g evs (bindPage (init d)) = Some s"
  from run_single_flight [OF this bindPage_single_flight]
  have "frame_pending s + raf_pending s \<le> 1" by (simp add: single_flight_def)
  then show ?thesis by simp
qed

theorem frame_loop_single_in_flight_witness:
  "\<exists>s. run (\<lambda>a b c. Inr 10) guiState
          [FrameResolved [\<lparr>pose_score = 9 / 10, keypoints = []\<rparr>], AnimationFrame]
          (bindPage (init [])) = Some s
      \<and> frame_pending s \<le> 1 \<and> frame_pending s + raf_pending s \<le> 1"
proof -
  obtain s where r:
    "run (\<lambda>a b c. Inr 10) guiState
       [FrameResolved [\<lparr>pose_score = 9 / 10, keypoints = []\<rparr>], AnimationFrame]
       (bindPage (init [])) = Some s"
    by (simp add: bindPage_def testImageAndEstimatePoses_def disposePoses_def
      detectPoseInRealTime_def poseDetectionFrame_def init_def poseDetectionFrame_resolved_def
      guiState_def forEach_body_def recalculate_def distance_def)
  from frame_loop_single_in_flight [OF r] r show ?thesis by blast
qed

subsection \<open>The tensor of the reference load\<close>

lemma forEach_body_ref:
  "forEach_body calc m p s = (r, s') \<Longrightarrow> input s' = input s \<and> ref_pc s' = ref_pc s"
  by (auto simp: forEach_body_def recalculate_def Let_def split: if_splits sum.splits)

lemma forEach_ref:
  "forEach calc m ps s = (r, s') \<Longrightarrow> input s' = input s \<and> ref_pc s' = ref_pc s"
proof (induction ps arbitrary: s)
  case Nil
  then show ?case by simp
next
  case (Cons p ps)
  obtain r1 s1 where b: "forEach_body calc m p s = (r1, s1)"
    by (cases "forEach_body calc m p s")
  from forEach_body_ref [OF b] have k: "input s1 = input s \<and> ref_pc s1 = ref_pc s" .
  show ?case
  proof (cases r1)
    case None
    with Cons.prems b have "forEach calc m ps s1 = (r, s')" by simp
    from Cons.IH [OF this] k show ?thesis by simp
  next
    case (Some e)
    with Cons.prems b have "s' = s1" by simp
    with k show ?thesis by simp
  qed
qed

lemma poseDetectionFrame_resolved_ref:
  "input (poseDetectionFrame_resolved calc g ps s) = input s
   \<and> ref_pc (poseDetectionFrame_resolved calc g ps s) = ref_pc s"
proof -
  let ?m = "case algorithm g of SinglePose \<Rightarrow> minPoseConfidence (singlePoseDetection g)
             | MultiPose \<Rightarrow> minPoseConfidence (multiPoseDetection g)"
  obtain r u where f: "forEach calc ?m ps s = (r, u)"
    by (cases "forEach calc ?m ps s")
  from forEach_ref [OF f] f show ?thesis
    by (cases r) (simp_all add: poseDetectionFrame_resolved_def)
qed

lemma step_keeps_leak:
  assumes "step calc g e s = Some s'" and "input s = Live" and "ref_pc s = Threw err"
  shows "input s' = Live \<and> ref_pc s' = Threw err"
proof (cases e)
  case (FrameResolved ps)
  with assms poseDetectionFrame_resolved_ref [of calc g ps "s\<lparr>frame_pending := frame_pending s - 1\<rparr>"]
  show ?thesis by (auto split: if_splits)
qed (use assms in \<open>auto simp: poseDetectionFrame_rejected_def poseDetectionFrame_def split: if_splits\<close>)

lemma run_keeps_leak:
  "run calc g evs s = Some s' \<Longrightarrow> input s = Live \<Longrightarrow> ref_pc s = Threw err \<Longrightarrow>
   input s' = Live \<and> ref_pc s' = Threw err"
proof (induction evs arbitrary: s)
  case Nil
  then show ?case by simp
next
  case (Cons e evs)
  then obtain s1 where a: "step calc g e s = Some s1" and b: "run calc g evs s1 = Some s'"
    by (auto split: option.splits)
  from step_keeps_leak [OF a Cons.prems(2,3)] Cons.IH [OF b] show ?case by blast
qed

lemma resolved_estimation_disposes_tensor:
  "js_index poses 0 = Some p \<Longrightarrow>
   calc (js_index (keypoints p) 9) (js_index (keypoints p) 7) (js_index (keypoints p) 5) = Inr a \<Longrightarrow>
   input (testImageAndEstimatePoses_resolved calc g poses s) = Disposed
   \<and> ref_pc (testImageAndEstimatePoses_resolved calc g poses s) = Returned"
  by (simp add: testImageAndEstimatePoses_resolved_def Let_def)

text \<open>
  C3 does not hold on the failure paths. When the estimation of the reference image is
  rejected, or resolves with no pose, \<open>testImageAndEstimatePoses\<close> is left by the
  exception and \<open>input.dispose()\<close> is not reached: the tensor stays live.
\<close>

theorem rejected_estimation_leaves_tensor:
  "(\<exists>s. run calc g [ImageLoaded, RefRejected] (bindPage (init d)) = Some s
       \<and> ref_pc s = Threw Rejected \<and> input s = Live)
   \<and> (\<exists>s. run calc g [ImageLoaded, RefResolved []] (bindPage (init d)) = Some s
       \<and> ref_pc s = Threw TypeError \<and> input s = Live)"
  by (simp add: bindPage_def testImageAndEstimatePoses_def disposePoses_def
      detectPoseInRealTime_def poseDetectionFrame_def init_def
      testImageAndEstimatePoses_loaded_def testImageAndEstimatePoses_rejected_def
      testImageAndEstimatePoses_resolved_def)

subsection \<open>The reference angle before and without a reference\<close>

text \<open>
  C2 does not hold. The reference pose has score 0.5, below the threshold 0.7, so no
  reference angle is stored and \<open>imgResult.leftElbow\<close> keeps its initial 0; a live pose of
  score 0.9 with angle 10 is then scored against 0 and \<open>SCORE: 50\<close> is shown.
\<close>

theorem low_confidence_reference_still_scored:
  "\<exists>s. run (\<lambda>a b c. Inr 10) guiState
          [ImageLoaded, RefResolved [\<lparr>pose_score = 1 / 2, keypoints = []\<rparr>],
           FrameResolved [\<lparr>pose_score = 9 / 10, keypoints = []\<rparr>]] (bindPage (init [])) = Some s
      \<and> ref_pc s = Returned \<and> leftElbow (imgResult s) = 0 \<and> leftElbow (userResult s) = 10
      \<and> score_innerHTML s = ''SCORE: 50''"
  by (simp add: bindPage_def testImageAndEstimatePoses_def disposePoses_def
      detectPoseInRealTime_def poseDetectionFrame_def init_def poseDetectionFrame_resolved_def
      testImageAndEstimatePoses_loaded_def testImageAndEstimatePoses_resolved_def
      guiState_def forEach_body_def recalculate_def distance_def Math_round_def
      Number_toString_def digits.simps digit_def)

text \<open>
  C10. \<open>bindPage\<close> calls \<open>detectPoseInRealTime\<close>, which issues the first estimation of
  the frame loop, before \<open>testImageAndEstimatePoses\<close>; the reference angle starts as 0.
  So a frame that settles while the reference image is still loading is scored against
  the reference angle 0.
\<close>

theorem frames_scored_before_reference_loaded:
  assumes "minPoseConfidence (singlePoseDetection guiState) \<le> pose_score p"
    and "calc (js_index (keypoints p) 9) (js_index (keypoints p) 7) (js_index (keypoints p) 5) = Inr a"
    and "a \<noteq> 0" and "\<bar>a\<bar> \<le> distance"
  shows "frame_pending (detectPoseInRealTime (init d)) = 1
       \<and> ref_pc (detectPoseInRealTime (init d)) = NotStarted
       \<and> frame_pending (bindPage (init d)) = 1
       \<and> ref_pc (bindPage (init d)) = AwaitLoadImage
       \<and> leftElbow (imgResult (init d)) = 0
       \<and> (\<exists>s. run calc guiState [FrameResolved [p]] (bindPage (init d)) = Some s
             \<and> ref_pc s = AwaitLoadImage \<and> input s = NotCreated
             \<and> leftElbow (imgResult s) = 0
             \<and> score_innerHTML s =
                 ''SCORE: '' @ Number_toString (Math_round ((1 - \<bar>0 - a\<bar> / distance) * 100)))"
  using assms
  by (simp add: bindPage_def testImageAndEstimatePoses_def disposePoses_def
      detectPoseInRealTime_def poseDetectionFrame_def init_def poseDetectionFrame_resolved_def
      guiState_def forEach_body_def recalculate_def)

theorem frames_scored_before_reference_loaded_witness:
  "\<exists>s. run (\<lambda>a b c. Inr 10) guiState [FrameResolved [\<lparr>pose_score = 9 / 10, keypoints = []\<rparr>]]
          (bindPage (init [])) = Some s
      \<and> ref_pc s = AwaitLoadImage \<and> input s = NotCreated \<and> leftElbow (imgResult s) = 0
      \<and> score_innerHTML s = ''SCORE: 50''"
  using frames_scored_before_reference_loaded
    [of "\<lparr>pose_score = 9 / 10, keypoints = []\<rparr>" "\<lambda>a b c. Inr 10" 10 "[]"]
  by (simp add: guiState_def distance_def Math_round_def Number_toString_def digits.simps digit_def
      del: run.simps)

subsection \<open>The angle calculation of the spec\<close>

lemma cauchy_schwarz_2:
  fixes ax ay bx "by" :: real
  shows "\<bar>ax * bx + ay * by\<bar> \<le> sqrt (ax * ax + ay * ay) * sqrt (bx * bx + by * by)"
proof -
  have "(ax * bx + ay * by)\<^sup>2 + (ax * by - ay * bx)\<^sup>2 = (ax * ax + ay * ay) * (bx * bx + by * by)"
    by (simp add: power2_eq_square algebra_simps)
  moreover have "0 \<le> (ax * by - ay * bx)\<^sup>2" by simp
  ultimately have "(ax * bx + ay * by)\<^sup>2 \<le> (ax * ax + ay * ay) * (bx * bx + by * by)"
    by linarith
  then have "sqrt ((ax * bx + ay * by)\<^sup>2) \<le> sqrt ((ax * ax + ay * ay) * (bx * bx + by * by))"
    by (rule real_sqrt_le_mono)
  then show ?thesis
    by (simp add: real_sqrt_mult)
qed

lemma cosine_bounds:
  fixes ax ay bx "by" :: real
  assumes "\<not> (ax = 0 \<and> ay = 0)" and "\<not> (bx = 0 \<and> by = 0)"
  shows "- 1 \<le> (ax * bx + ay * by) / (sqrt (ax * ax + ay * ay) * sqrt (bx * bx + by * by))"
    and "(ax * bx + ay * by) / (sqrt (ax * ax + ay * ay) * sqrt (bx * bx + by * by)) \<le> 1"
proof -
  let ?N = "ax * bx + ay * by"
  let ?D = "sqrt (ax * ax + ay * ay) * sqrt (bx * bx + by * by)"
  have "ax * ax + ay * ay \<noteq> 0"
    using assms(1) by (simp add: sum_squares_eq_zero_iff)
  then have pa: "0 < ax * ax + ay * ay"
    using sum_squares_ge_zero [of ax ay] by linarith
  have "bx * bx + by * by \<noteq> 0"
    using assms(2) by (simp add: sum_squares_eq_zero_iff)
  then have pb: "0 < bx * bx + by * by"
    using sum_squares_ge_zero [of bx "by"] by linarith
  from pa pb have D: "0 < ?D" by simp
  from cauchy_schwarz_2 [of ax bx ay "by"] have N: "- ?D \<le> ?N" "?N \<le> ?D"
    by (simp_all add: abs_le_iff)
  from D N(1) show "- 1 \<le> ?N / ?D"
    by (simp add: pos_le_divide_eq)
  from D N(2) show "?N / ?D \<le> 1"
    by (simp add: pos_divide_le_eq)
qed

text \<open>
  C6, on the angle calculation as the spec describes it. When the vertex coincides with
  one of the other two points the calculation fails with \<open>DegenerateGeometry\<close> and
  returns no number; for every other triple it returns an angle between 0 and 180.
\<close>

theorem angleOf_degenerate_or_bounded:
  "(vertex = pointA \<or> vertex = pointB \<longrightarrow> angleOf vertex pointA pointB = Inl DegenerateGeometry)
   \<and> (vertex \<noteq> pointA \<and> vertex \<noteq> pointB \<longrightarrow>
        (\<exists>d. angleOf vertex pointA pointB = Inr d \<and> 0 \<le> d \<and> d \<le> 180))"
proof (intro conjI impI)
  assume "vertex = pointA \<or> vertex = pointB"
  then show "angleOf vertex pointA pointB = Inl DegenerateGeometry"
    by (auto simp: angleOf_def)
next
  assume nd: "vertex \<noteq> pointA \<and> vertex \<noteq> pointB"
  let ?ax = "x pointA - x vertex" and ?ay = "y pointA - y vertex"
  let ?bx = "x pointB - x vertex" and ?by = "y pointB - y vertex"
  let ?q = "(?ax * ?bx + ?ay * ?by) / (sqrt (?ax * ?ax + ?ay * ?ay) * sqrt (?bx * ?bx + ?by * ?by))"
  from nd have a: "\<not> (?ax = 0 \<and> ?ay = 0)" and b: "\<not> (?bx = 0 \<and> ?by = 0)"
    by (auto simp: position.equality)
  from cosine_bounds [OF a b] have q: "- 1 \<le> ?q" "?q \<le> 1" .
  from arccos_bounded [OF q] have "0 \<le> arccos ?q" "arccos ?q \<le> pi" by simp_all
  then have "0 \<le> arccos ?q * 180 / pi" "arccos ?q * 180 / pi \<le> 180"
    by (simp_all add: field_simps)
  moreover from a b have "angleOf vertex pointA pointB = Inr (arccos ?q * 180 / pi)"
    by (simp add: angleOf_def Let_def)
  ultimately show "\<exists>d. angleOf vertex pointA pointB = Inr d \<and> 0 \<le> d \<and> d \<le> 180"
    by blast
qed

theorem angleOf_degenerate_or_bounded_witness:
  "angleOf \<lparr>x = 0, y = 0\<rparr> \<lparr>x = 0, y = 0\<rparr> \<lparr>x = 0, y = 1\<rparr> = Inl DegenerateGeometry
   \<and> (\<exists>d. angleOf \<lparr>x = 0, y = 0\<rparr> \<lparr>x = 1, y = 0\<rparr> \<lparr>x = 0, y = 1\<rparr> = Inr d \<and> 0 \<le> d \<and> d \<le> 180)"
  using angleOf_degenerate_or_bounded [of "\<lparr>x = 0, y = 0\<rparr>" "\<lparr>x = 0, y = 0\<rparr>" "\<lparr>x = 0, y = 1\<rparr>"]
    angleOf_degenerate_or_bounded [of "\<lparr>x = 0, y = 0\<rparr>" "\<lparr>x = 1, y = 0\<rparr>" "\<lparr>x = 0, y = 1\<rparr>"]
  by simp

lemma angleOf_right: "angleOf \<lparr>x = 0, y = 0\<rparr> \<lparr>x = 1, y = 0\<rparr> \<lparr>x = 0, y = 1\<rparr> = Inr 90"
  by (simp add: angleOf_def)



lemma js_index_nth: "js_index xs i = (if i < length xs then Some (xs ! i) else None)"
proof (induction xs arbitrary: i)
  case Nil
  then show ?case by simp
next
  case (Cons a xs)
  then show ?case by (cases i) simp_all
qed

lemma calculateAngle_spec_pose_with:
  "calculateAngle_spec (js_index (keypoints (pose_with sc w e sh)) 9)
     (js_index (keypoints (pose_with sc w e sh)) 7)
     (js_index (keypoints (pose_with sc w e sh)) 5) = angleOf e w sh"
  by (simp add: calculateAngle_spec_def pose_with_def js_index_nth)

lemma pose_score_pose_with: "pose_score (pose_with sc w e sh) = sc"
  by (simp add: pose_with_def)

subsection \<open>The same landmarks and the same formula on both paths\<close>

text \<open>
  C7. Fed the same pose, the frame loop (in the single-pose mode, which is the configured
  one) and the reference load leave the same angle in \<open>userResult.leftElbow\<close> and in
  \<open>imgResult.leftElbow\<close> when the two held the same value before; and in either mode, a
  pose that passes both confidence gates gives on both paths the value of
  \<open>calculateAngle\<close> on its keypoints 9, 7 and 5.
\<close>

theorem same_pose_same_angle:
  "(algorithm g = SinglePose \<and> leftElbow (userResult s) = leftElbow (imgResult t) \<longrightarrow>
      leftElbow (userResult (poseDetectionFrame_resolved calc g [p] s))
        = leftElbow (imgResult (testImageAndEstimatePoses_resolved calc g [p] t)))
   \<and> ((case algorithm g of
          SinglePose \<Rightarrow> minPoseConfidence (singlePoseDetection g)
        | MultiPose \<Rightarrow> minPoseConfidence (multiPoseDetection g)) \<le> pose_score p
       \<and> minPoseConfidence (singlePoseDetection g) \<le> pose_score p
       \<and> calc (js_index (keypoints p) 9) (js_index (keypoints p) 7) (js_index (keypoints p) 5) = Inr a \<longrightarrow>
      leftElbow (userResult (poseDetectionFrame_resolved calc g [p] s)) = a
      \<and> leftElbow (imgResult (testImageAndEstimatePoses_resolved calc g [p] t)) = a)"
  by (auto simp: poseDetectionFrame_resolved_def testImageAndEstimatePoses_resolved_def
      forEach_body_def recalculate_userResult Let_def split: sum.splits algorithm.splits)

theorem same_pose_same_angle_witness:
  "leftElbow (userResult (poseDetectionFrame_resolved calculateAngle_spec guiState
       [pose_with (9 / 10) \<lparr>x = 1, y = 0\<rparr> \<lparr>x = 0, y = 0\<rparr> \<lparr>x = 0, y = 1\<rparr>] (init []))) = 90
   \<and> leftElbow (imgResult (testImageAndEstimatePoses_resolved calculateAngle_spec guiState
       [pose_with (9 / 10) \<lparr>x = 1, y = 0\<rparr> \<lparr>x = 0, y = 0\<rparr> \<lparr>x = 0, y = 1\<rparr>] (init []))) = 90"
  using same_pose_same_angle
    [of guiState "init []" "init []" calculateAngle_spec
        "pose_with (9 / 10) \<lparr>x = 1, y = 0\<rparr> \<lparr>x = 0, y = 0\<rparr> \<lparr>x = 0, y = 1\<rparr>" 90]
  by (simp add: guiState_def calculateAngle_spec_pose_with pose_score_pose_with angleOf_right)

subsection \<open>Several poses in one frame\<close>






lemma forEach_append:
  "forEach calc m (ps @ qs) s =
     (case forEach calc m ps s of (Some e, t) \<Rightarrow> (Some e, t) | (None, t) \<Rightarrow> forEach calc m qs t)"
  by (induction ps arbitrary: s) (auto split: prod.splits option.splits)

lemma forEach_throw:
  assumes "forEach calc m ps s = (None, t)" and "m \<le> pose_score p"
    and "calc (js_index (keypoints p) 9) (js_index (keypoints p) 7) (js_index (keypoints p) 5) = Inl e"
  shows "forEach calc m (ps @ p # qs) s = (Some e, t)"
  using assms by (simp add: forEach_append forEach_body_def)





end
